theory Spec2Isabelle
  imports Main "HOL-Library.Word"
begin

section \<open>The command composer of \<^verbatim>\<open>CommandInput.tsx\<close>\<close>

text \<open>
  The component keeps three pieces of state (\<^verbatim>\<open>command\<close>, \<^verbatim>\<open>commandHistory\<close>,
  \<^verbatim>\<open>historyIndex\<close>) and has no other memory. Each handler is embedded as a function
  from the props and the state it closes over to the list of effects it issues, in
  program order: calls of the three state setters, calls of the two callback props,
  \<^verbatim>\<open>preventDefault\<close> and \<^verbatim>\<open>focus\<close>. A handler reads the state of the render
  it was created in. The framework queues the setter calls made inside an event handler
  and applies them, in the order of the calls, once the handler has returned; so the
  state after a handler is the state obtained by running the setter calls of its list
  in order, and every event is handled in a render that has seen the setter calls of
  the events before it.
\<close>

subsection \<open>Strings and arrays of the host language\<close>

text \<open>
  A JavaScript string is a sequence of 16-bit code units. \<^verbatim>\<open>"a"\<close> is \<open>[0x61]\<close>,
  the carriage return \<^verbatim>\<open>"\r"\<close> is \<open>[0x0D]\<close>, the empty string is \<open>[]\<close>.
\<close>

type_synonym jsstring = "16 word list"

definition isWhiteSpace :: "16 word \<Rightarrow> bool" where
  \<comment> \<open>The code units that \<^verbatim>\<open>String.prototype.trim\<close> strips: ECMAScript's WhiteSpace
      (TAB, VT, FF, SP, NBSP, ZWNBSP and the space separators) and LineTerminator
      (LF, CR, LS, PS).\<close>
  "isWhiteSpace c \<longleftrightarrow>
     c = 0x0009 \<or> c = 0x000A \<or> c = 0x000B \<or> c = 0x000C \<or> c = 0x000D \<or>
     c = 0x0020 \<or> c = 0x00A0 \<or> c = 0x1680 \<or>
     (0x2000 \<le> c \<and> c \<le> 0x200A) \<or>
     c = 0x2028 \<or> c = 0x2029 \<or> c = 0x202F \<or> c = 0x205F \<or>
     c = 0x3000 \<or> c = 0xFEFF"

definition trim :: "jsstring \<Rightarrow> jsstring" where
  \<comment> \<open>\<^verbatim>\<open>s.trim()\<close>: leading and trailing white space removed.\<close>
  "trim s = rev (dropWhile isWhiteSpace (rev (dropWhile isWhiteSpace s)))"

definition js_index :: "'a list \<Rightarrow> int \<Rightarrow> 'a option" where
  \<comment> \<open>\<^verbatim>\<open>xs[i]\<close> for an integer \<open>i\<close>: the element, or \<^verbatim>\<open>undefined\<close> (\<open>None\<close>)
      outside \<open>0 .. length - 1\<close>.\<close>
  "js_index xs i = (if 0 \<le> i \<and> i < int (length xs) then Some (xs ! nat i) else None)"

subsection \<open>Props, state, events and effects\<close>

record props =
  disabled :: bool
  \<comment> \<open>whether the optional prop \<^verbatim>\<open>onSendArrowKey\<close> was passed\<close>
  hasSendArrowKey :: bool

text \<open>
  \<^verbatim>\<open>command\<close> is typed \<^verbatim>\<open>string\<close> in the source, but the two array reads of
  \<^verbatim>\<open>handleKeyDown\<close> hand \<^verbatim>\<open>undefined\<close> to \<^verbatim>\<open>setCommand\<close> when their index is
  out of range, so the field holds \<open>Some s\<close> for a string and \<open>None\<close> for
  \<^verbatim>\<open>undefined\<close>.
\<close>

record state =
  command :: "jsstring option"
  commandHistory :: "jsstring list"
  historyIndex :: int

datatype direction = up | down | left | right

datatype keyname = Enter | ArrowUp | ArrowDown | OtherKey
  \<comment> \<open>\<^verbatim>\<open>e.key\<close>, split by the three literals the handler compares it with\<close>

record keyevent =
  key :: keyname
  ctrlKey :: bool
  metaKey :: bool

datatype error = TypeError

datatype action =
    SetCommandHistoryAppend jsstring  \<comment> \<open>\<^verbatim>\<open>setCommandHistory(prev => [...prev, c])\<close>\<close>
  | SetHistoryIndex int               \<comment> \<open>\<^verbatim>\<open>setHistoryIndex(i)\<close>\<close>
  | SetCommand "jsstring option"      \<comment> \<open>\<^verbatim>\<open>setCommand(v)\<close>\<close>
  | OnSendCommand jsstring            \<comment> \<open>\<^verbatim>\<open>onSendCommand(c)\<close>\<close>
  | OnSendArrowKey direction          \<comment> \<open>\<^verbatim>\<open>onSendArrowKey(d)\<close>\<close>
  | PreventDefault                    \<comment> \<open>\<^verbatim>\<open>e.preventDefault()\<close>\<close>
  | Focus                             \<comment> \<open>\<^verbatim>\<open>inputRef.current.focus()\<close>\<close>

type_synonym outcome = "action list \<times> error option"
  \<comment> \<open>the effects issued, and the exception that ended the handler, if any\<close>

definition initial :: state where
  \<comment> \<open>the three \<^verbatim>\<open>useState\<close> initial values\<close>
  "initial = \<lparr>command = Some [], commandHistory = [], historyIndex = - 1\<rparr>"

subsection \<open>The handlers\<close>

definition sendCommand :: "props \<Rightarrow> state \<Rightarrow> outcome" where
  "sendCommand p s =
     (if disabled p then ([], None)
      else case command s of
        None \<Rightarrow> ([], Some TypeError)  \<comment> \<open>\<^verbatim>\<open>undefined.trim()\<close> throws\<close>
      | Some c \<Rightarrow>
          if trim c \<noteq> [] then
            ([SetCommandHistoryAppend c, SetHistoryIndex (- 1), OnSendCommand c,
              SetCommand (Some [])], None)
          else ([OnSendCommand [0x000D]], None))"

definition handleSubmit :: "props \<Rightarrow> state \<Rightarrow> outcome" where
  "handleSubmit p s =
     (case sendCommand p s of (acts, err) \<Rightarrow> (PreventDefault # acts, err))"

definition handleKeyDown :: "props \<Rightarrow> state \<Rightarrow> keyevent \<Rightarrow> outcome" where
  "handleKeyDown p s e =
     (if (ctrlKey e \<or> metaKey e) \<and> key e = Enter then
        (case sendCommand p s of (acts, err) \<Rightarrow> (PreventDefault # acts, err))
      else if key e = ArrowUp then
        (PreventDefault #
          (if length (commandHistory s) > 0 then
             (let newIndex = historyIndex s + 1 in
              if newIndex < int (length (commandHistory s)) then
                [SetHistoryIndex newIndex,
                 SetCommand (js_index (commandHistory s)
                   (int (length (commandHistory s)) - 1 - newIndex))]
              else [])
           else []), None)
      else if key e = ArrowDown then
        (PreventDefault #
          (if historyIndex s > 0 then
             (let newIndex = historyIndex s - 1 in
              [SetHistoryIndex newIndex,
               SetCommand (js_index (commandHistory s)
                 (int (length (commandHistory s)) - 1 - newIndex))])
           else if historyIndex s = 0 then
             [SetHistoryIndex (- 1), SetCommand (Some [])]
           else []), None)
      else ([], None))"

definition onChange :: "jsstring \<Rightarrow> outcome" where
  \<comment> \<open>the text field's \<^verbatim>\<open>onChange={(e) => setCommand(e.target.value)}\<close>\<close>
  "onChange v = ([SetCommand (Some v)], None)"

definition onClickArrow :: "direction \<Rightarrow> outcome" where
  \<comment> \<open>a direction button's \<^verbatim>\<open>onClick={() => onSendArrowKey(d)}\<close>\<close>
  "onClickArrow d = ([OnSendArrowKey d], None)"

definition autoFocus :: "props \<Rightarrow> bool \<Rightarrow> action list" where
  \<comment> \<open>the \<^verbatim>\<open>useEffect\<close> on \<^verbatim>\<open>[disabled]\<close>; the flag says whether
      \<^verbatim>\<open>inputRef.current\<close> is set\<close>
  "autoFocus p attached = (if \<not> disabled p \<and> attached then [Focus] else [])"

subsection \<open>Running the effects\<close>

fun apply_action :: "state \<Rightarrow> action \<Rightarrow> state" where
  "apply_action s (SetCommandHistoryAppend c) = s\<lparr>commandHistory := commandHistory s @ [c]\<rparr>"
| "apply_action s (SetHistoryIndex i) = s\<lparr>historyIndex := i\<rparr>"
| "apply_action s (SetCommand v) = s\<lparr>command := v\<rparr>"
| "apply_action s (OnSendCommand c) = s"
| "apply_action s (OnSendArrowKey d) = s"
| "apply_action s PreventDefault = s"
| "apply_action s Focus = s"

definition apply_actions :: "state \<Rightarrow> action list \<Rightarrow> state" where
  "apply_actions s acts = foldl apply_action s acts"

fun sentCommands :: "action list \<Rightarrow> jsstring list" where
  \<comment> \<open>the arguments of the \<^verbatim>\<open>onSendCommand\<close> calls, in order\<close>
  "sentCommands [] = []"
| "sentCommands (OnSendCommand c # as) = c # sentCommands as"
| "sentCommands (_ # as) = sentCommands as"

fun sentArrowKeys :: "action list \<Rightarrow> direction list" where
  \<comment> \<open>the arguments of the \<^verbatim>\<open>onSendArrowKey\<close> calls, in order\<close>
  "sentArrowKeys [] = []"
| "sentArrowKeys (OnSendArrowKey d # as) = d # sentArrowKeys as"
| "sentArrowKeys (_ # as) = sentArrowKeys as"

fun focusRequests :: "action list \<Rightarrow> nat" where
  "focusRequests [] = 0"
| "focusRequests (Focus # as) = Suc (focusRequests as)"
| "focusRequests (_ # as) = focusRequests as"

subsection \<open>The state a callback is called in\<close>






subsection \<open>Events delivered to the handlers\<close>

datatype event =
    KeyDown keyevent      \<comment> \<open>\<^verbatim>\<open>onKeyDown\<close> of the text field\<close>
  | FormSubmit            \<comment> \<open>\<^verbatim>\<open>onSubmit\<close> of the form\<close>
  | Change jsstring       \<comment> \<open>\<^verbatim>\<open>onChange\<close> of the text field, with the new value\<close>

fun handle :: "props \<Rightarrow> state \<Rightarrow> event \<Rightarrow> outcome" where
  "handle p s (KeyDown e) = handleKeyDown p s e"
| "handle p s FormSubmit = handleSubmit p s"
| "handle p s (Change v) = onChange v"

definition step :: "props \<Rightarrow> state \<Rightarrow> event \<Rightarrow> state" where
  "step p s ev = apply_actions s (fst (handle p s ev))"

fun runs :: "state \<Rightarrow> (props \<times> event) list \<Rightarrow> state" where
  \<comment> \<open>a sequence of events, each with the props of the render it arrives in\<close>
  "runs s [] = s"
| "runs s ((p, ev) # rest) = runs (step p s ev) rest"

definition run :: "props \<Rightarrow> state \<Rightarrow> event list \<Rightarrow> state" where
  \<comment> \<open>the same with props that do not change\<close>
  "run p s evs = runs s (map (Pair p) evs)"

fun isSubmit :: "event \<Rightarrow> bool" where
  \<comment> \<open>the two events whose handler calls \<^verbatim>\<open>sendCommand\<close>\<close>
  "isSubmit FormSubmit = True"
| "isSubmit (KeyDown e) = ((ctrlKey e \<or> metaKey e) \<and> key e = Enter)"
| "isSubmit (Change v) = False"

definition pressUp :: event where
  "pressUp = KeyDown \<lparr>key = ArrowUp, ctrlKey = False, metaKey = False\<rparr>"

definition pressDown :: event where
  "pressDown = KeyDown \<lparr>key = ArrowDown, ctrlKey = False, metaKey = False\<rparr>"

definition enabled :: props where
  "enabled = \<lparr>disabled = False, hasSendArrowKey = True\<rparr>"

definition cursor_ok :: "state \<Rightarrow> bool" where
  "cursor_ok s \<longleftrightarrow>
     historyIndex s = - 1 \<or>
     (0 \<le> historyIndex s \<and> historyIndex s < int (length (commandHistory s)))"

subsection \<open>What the user can do to the rendered controls\<close>

text \<open>
  Every button is rendered with \<^verbatim>\<open>disabled={disabled}\<close>. A click on a button whose
  \<^verbatim>\<open>disabled\<close> attribute is set raises no click event (HTML), so its handler does
  not run; this rule of the platform is \<open>click\<close>. The direction buttons exist only
  when \<^verbatim>\<open>onSendArrowKey\<close> was passed; the submit button has \<^verbatim>\<open>type="submit"\<close>, so
  its click submits the form. Key presses and form submissions are taken as delivered
  to their handlers whatever the \<^verbatim>\<open>disabled\<close> attribute of the text field says.
\<close>

record button =
  btn_disabled :: bool
  btn_onClick :: outcome

definition arrowButton :: "props \<Rightarrow> direction \<Rightarrow> button" where
  "arrowButton p d = \<lparr>btn_disabled = disabled p, btn_onClick = onClickArrow d\<rparr>"

definition submitButton :: "props \<Rightarrow> state \<Rightarrow> button" where
  "submitButton p s = \<lparr>btn_disabled = disabled p, btn_onClick = handleSubmit p s\<rparr>"

definition click :: "button \<Rightarrow> outcome" where
  "click b = (if btn_disabled b then ([], None) else btn_onClick b)"

datatype interaction =
    KeyPress keyevent
  | SubmitForm
  | ClickArrow direction
  | ClickSubmit
  | TypeText jsstring

fun interact :: "props \<Rightarrow> state \<Rightarrow> interaction \<Rightarrow> outcome" where
  "interact p s (KeyPress e) = handleKeyDown p s e"
| "interact p s SubmitForm = handleSubmit p s"
| "interact p s (ClickArrow d) =
     (if hasSendArrowKey p then click (arrowButton p d) else ([], None))"
| "interact p s ClickSubmit = click (submitButton p s)"
| "interact p s (TypeText v) = onChange v"

section \<open>Properties\<close>

lemmas handler_defs =
  step_def apply_actions_def handleSubmit_def sendCommand_def handleKeyDown_def onChange_def

lemmas example_defs =
  run_def enabled_def initial_def pressUp_def pressDown_def trim_def isWhiteSpace_def
  js_index_def

lemma handle_submit:
  "isSubmit ev \<Longrightarrow>
     handle p s ev = (PreventDefault # fst (sendCommand p s), snd (sendCommand p s))"
  by (cases ev) (auto simp: handleSubmit_def handleKeyDown_def split: prod.splits)

lemma step_up:
  "key e = ArrowUp \<Longrightarrow> step p s (KeyDown e) =
     (if commandHistory s \<noteq> [] \<and> historyIndex s + 1 < int (length (commandHistory s))
      then s\<lparr>historyIndex := historyIndex s + 1,
             command := js_index (commandHistory s)
               (int (length (commandHistory s)) - 1 - (historyIndex s + 1))\<rparr>
      else s)"
  by (simp add: step_def apply_actions_def handleKeyDown_def Let_def)

lemma step_down:
  "key e = ArrowDown \<Longrightarrow> step p s (KeyDown e) =
     (if historyIndex s > 0
      then s\<lparr>historyIndex := historyIndex s - 1,
             command := js_index (commandHistory s)
               (int (length (commandHistory s)) - 1 - (historyIndex s - 1))\<rparr>
      else if historyIndex s = 0 then s\<lparr>historyIndex := - 1, command := Some []\<rparr>
      else s)"
  by (simp add: step_def apply_actions_def handleKeyDown_def Let_def)

lemma step_change: "step p s (Change v) = s\<lparr>command := Some v\<rparr>"
  by (simp add: step_def apply_actions_def onChange_def)

lemma step_submit:
  "isSubmit ev \<Longrightarrow> step p s ev =
     (if disabled p then s
      else case command s of
        None \<Rightarrow> s
      | Some c \<Rightarrow>
          if trim c \<noteq> []
          then s\<lparr>commandHistory := commandHistory s @ [c], historyIndex := - 1, command := Some []\<rparr>
          else s)"
  by (simp add: handle_submit step_def apply_actions_def sendCommand_def split: option.splits)

lemma step_other:
  "\<not> isSubmit (KeyDown e) \<Longrightarrow> key e \<noteq> ArrowUp \<Longrightarrow> key e \<noteq> ArrowDown \<Longrightarrow>
     step p s (KeyDown e) = s"
  by (auto simp: step_def apply_actions_def handleKeyDown_def)

lemma cursor_ok_step: "cursor_ok s \<Longrightarrow> cursor_ok (step p s ev)"
proof (cases ev)
  case (KeyDown e)
  assume ok: "cursor_ok s"
  show ?thesis
  proof (cases "isSubmit (KeyDown e)")
    case True
    with ok show ?thesis
      unfolding KeyDown by (auto simp: step_submit cursor_ok_def split: option.splits)
  next
    case False
    note ns = this
    show ?thesis
    proof (cases "key e")
      case ArrowUp
      with ok show ?thesis unfolding KeyDown by (auto simp: step_up cursor_ok_def)
    next
      case ArrowDown
      with ok show ?thesis unfolding KeyDown by (auto simp: step_down cursor_ok_def)
    next
      case Enter
      with ns ok show ?thesis unfolding KeyDown by (simp add: step_other)
    next
      case OtherKey
      with ns ok show ?thesis unfolding KeyDown by (simp add: step_other)
    qed
  qed
next
  case FormSubmit
  assume "cursor_ok s"
  then show ?thesis
    unfolding FormSubmit by (auto simp: step_submit cursor_ok_def split: option.splits)
next
  case (Change v)
  assume "cursor_ok s"
  then show ?thesis unfolding Change by (simp add: step_change cursor_ok_def)
qed

lemma cursor_ok_runs: "cursor_ok s \<Longrightarrow> cursor_ok (runs s pes)"
  by (induction s pes rule: runs.induct) (simp_all add: cursor_ok_step)

lemma sendCommand_disabled: "disabled p \<Longrightarrow> sendCommand p s = ([], None)"
  by (simp add: sendCommand_def)

lemma handleKeyDown_quiet:
  "disabled p \<Longrightarrow>
     sentCommands (fst (handleKeyDown p s e)) = []
   \<and> sentArrowKeys (fst (handleKeyDown p s e)) = []
   \<and> focusRequests (fst (handleKeyDown p s e)) = 0"
  by (simp add: handleKeyDown_def sendCommand_disabled Let_def)




subsection \<open>Submitting\<close>

text \<open>
  C1, as the code has it. \<^verbatim>\<open>sendCommand\<close> returns at once when \<^verbatim>\<open>disabled\<close> is
  set, so the property holds for the enabled component: when the component is not
  disabled and the draft \<open>d\<close> has a non-empty trim, a submit (form submission, or Enter
  with Ctrl or Meta) appends the untrimmed \<open>d\<close> to the history, sets the cursor to
  \<open>-1\<close>, calls the send-command callback exactly once, with \<open>d\<close> itself, leaves the
  draft empty, and throws nothing.
\<close>

theorem submit_nonblank:
  assumes "\<not> disabled p" and "command s = Some d" and "trim d \<noteq> []" and "isSubmit ev"
  shows "commandHistory (step p s ev) = commandHistory s @ [d]
       \<and> historyIndex (step p s ev) = - 1
       \<and> command (step p s ev) = Some []
       \<and> sentCommands (fst (handle p s ev)) = [d]
       \<and> snd (handle p s ev) = None"
  using assms by (simp add: handle_submit step_def apply_actions_def sendCommand_def)

theorem submit_nonblank_witness:
  "\<not> disabled enabled \<and> trim [0x61] \<noteq> [] \<and> isSubmit FormSubmit
   \<and> step enabled \<lparr>command = Some [0x61], commandHistory = [[0x62]], historyIndex = 0\<rparr>
        FormSubmit
       = \<lparr>command = Some [], commandHistory = [[0x62], [0x61]], historyIndex = - 1\<rparr>
   \<and> sentCommands (fst (handle enabled
        \<lparr>command = Some [0x61], commandHistory = [[0x62]], historyIndex = 0\<rparr> FormSubmit))
       = [[0x61]]"
proof -
  let ?s = "\<lparr>command = Some [0x61], commandHistory = [[0x62]], historyIndex = 0\<rparr>"
  have a: "\<not> disabled enabled" by (simp add: enabled_def)
  have b: "command ?s = Some [0x61]" by simp
  have c: "trim [0x61] \<noteq> []" by (simp add: trim_def isWhiteSpace_def)
  have d: "isSubmit FormSubmit" by simp
  from submit_nonblank [OF a b c d] have
    "commandHistory (step enabled ?s FormSubmit) = [[0x62], [0x61]]"
    "historyIndex (step enabled ?s FormSubmit) = - 1"
    "command (step enabled ?s FormSubmit) = Some []"
    "sentCommands (fst (handle enabled ?s FormSubmit)) = [[0x61]]"
    by simp_all
  then have "step enabled ?s FormSubmit
     = \<lparr>command = Some [], commandHistory = [[0x62], [0x61]], historyIndex = - 1\<rparr>"
    "sentCommands (fst (handle enabled ?s FormSubmit)) = [[0x61]]"
    by (cases "step enabled ?s FormSubmit"; simp)+
  with a c d show ?thesis by simp
qed

text \<open>
  C1 as it is written fails when \<^verbatim>\<open>disabled\<close> is set: the draft \<^verbatim>\<open>"a"\<close> has a
  non-empty trim, and submitting it calls nothing and changes nothing.
\<close>

theorem submit_nonblank_disabled_counterexample:
  "trim [0x61] \<noteq> []
   \<and> isSubmit FormSubmit
   \<and> sentCommands (fst (handle \<lparr>disabled = True, hasSendArrowKey = True\<rparr>
        \<lparr>command = Some [0x61], commandHistory = [], historyIndex = - 1\<rparr> FormSubmit)) = []
   \<and> step \<lparr>disabled = True, hasSendArrowKey = True\<rparr>
        \<lparr>command = Some [0x61], commandHistory = [], historyIndex = - 1\<rparr> FormSubmit
       = \<lparr>command = Some [0x61], commandHistory = [], historyIndex = - 1\<rparr>"
  by (simp add: handler_defs trim_def isWhiteSpace_def)

text \<open>
  C4, as the code has it. When the component is not disabled and the trim of the draft
  is empty (the empty string, or white space only), a submit calls the send-command
  callback exactly once, with the one-character string carriage return, and leaves the
  history, the cursor and the draft as they were.
\<close>

theorem submit_blank:
  assumes "\<not> disabled p" and "command s = Some d" and "trim d = []" and "isSubmit ev"
  shows "sentCommands (fst (handle p s ev)) = [[0x000D]]
       \<and> step p s ev = s
       \<and> snd (handle p s ev) = None"
  using assms by (simp add: handle_submit step_def apply_actions_def sendCommand_def)

theorem submit_blank_witness:
  "\<not> disabled enabled \<and> trim [0x20, 0x3000, 0x0A] = [] \<and> isSubmit FormSubmit
   \<and> sentCommands (fst (handle enabled
        \<lparr>command = Some [0x20, 0x3000, 0x0A], commandHistory = [[0x62]], historyIndex = 0\<rparr>
        FormSubmit)) = [[0x000D]]
   \<and> step enabled
        \<lparr>command = Some [0x20, 0x3000, 0x0A], commandHistory = [[0x62]], historyIndex = 0\<rparr>
        FormSubmit
       = \<lparr>command = Some [0x20, 0x3000, 0x0A], commandHistory = [[0x62]], historyIndex = 0\<rparr>"
proof -
  let ?s = "\<lparr>command = Some [0x20, 0x3000, 0x0A], commandHistory = [[0x62]], historyIndex = 0\<rparr>"
  have a: "\<not> disabled enabled" by (simp add: enabled_def)
  have b: "command ?s = Some [0x20, 0x3000, 0x0A]" by simp
  have c: "trim [0x20, 0x3000, 0x0A] = []" by (simp add: trim_def isWhiteSpace_def)
  have d: "isSubmit FormSubmit" by simp
  from submit_blank [OF a b c d] a c d show ?thesis by simp
qed

text \<open>
  C4 as it is written fails when \<^verbatim>\<open>disabled\<close> is set: submitting the empty draft
  calls nothing.
\<close>

theorem submit_blank_disabled_counterexample:
  "trim [] = []
   \<and> isSubmit FormSubmit
   \<and> sentCommands (fst (handle \<lparr>disabled = True, hasSendArrowKey = True\<rparr>
        \<lparr>command = Some [], commandHistory = [], historyIndex = - 1\<rparr> FormSubmit)) = []"
  by (simp add: handler_defs trim_def)

subsection \<open>Walking the history\<close>

text \<open>
  C2. In every state with a non-empty history, a press of the Up key with cursor \<open>c\<close>
  sets the cursor to \<open>c + 1\<close> and the draft to
  \<^verbatim>\<open>History[length(History) - 1 - (c + 1)]\<close> whenever \<open>c + 1 < length(History)\<close> (the
  read is in range as soon as \<open>-1 \<le> c\<close>), and changes nothing when
  \<open>c + 1 = length(History)\<close>. In particular, after \<^verbatim>\<open>"a"\<close>, \<^verbatim>\<open>"b"\<close>, \<^verbatim>\<open>"c"\<close> have
  been submitted in this order, three presses of Up show \<^verbatim>\<open>"c"\<close>, \<^verbatim>\<open>"b"\<close>,
  \<^verbatim>\<open>"a"\<close>, and a fourth leaves \<^verbatim>\<open>"a"\<close>.
\<close>

theorem up_key:
  assumes "key e = ArrowUp" and "commandHistory s \<noteq> []"
  shows "(historyIndex s + 1 < int (length (commandHistory s)) \<longrightarrow>
            historyIndex (step p s (KeyDown e)) = historyIndex s + 1
          \<and> command (step p s (KeyDown e)) =
              js_index (commandHistory s)
                (int (length (commandHistory s)) - 1 - (historyIndex s + 1))
          \<and> commandHistory (step p s (KeyDown e)) = commandHistory s)
       \<and> (- 1 \<le> historyIndex s \<and> historyIndex s + 1 < int (length (commandHistory s)) \<longrightarrow>
            command (step p s (KeyDown e)) =
              Some (commandHistory s ! (length (commandHistory s) - 1 - nat (historyIndex s + 1))))
       \<and> (historyIndex s + 1 = int (length (commandHistory s)) \<longrightarrow>
            step p s (KeyDown e) = s)
       \<and> command (run enabled initial
            [Change [0x61], FormSubmit, Change [0x62], FormSubmit, Change [0x63], FormSubmit,
             pressUp]) = Some [0x63]
       \<and> command (run enabled initial
            [Change [0x61], FormSubmit, Change [0x62], FormSubmit, Change [0x63], FormSubmit,
             pressUp, pressUp]) = Some [0x62]
       \<and> command (run enabled initial
            [Change [0x61], FormSubmit, Change [0x62], FormSubmit, Change [0x63], FormSubmit,
             pressUp, pressUp, pressUp]) = Some [0x61]
       \<and> command (run enabled initial
            [Change [0x61], FormSubmit, Change [0x62], FormSubmit, Change [0x63], FormSubmit,
             pressUp, pressUp, pressUp, pressUp]) = Some [0x61]"
proof -
  have nav: "historyIndex s + 1 < int (length (commandHistory s)) \<longrightarrow>
            historyIndex (step p s (KeyDown e)) = historyIndex s + 1
          \<and> command (step p s (KeyDown e)) =
              js_index (commandHistory s)
                (int (length (commandHistory s)) - 1 - (historyIndex s + 1))
          \<and> commandHistory (step p s (KeyDown e)) = commandHistory s"
    using assms by (simp add: step_up)
  have inr: "- 1 \<le> historyIndex s \<and> historyIndex s + 1 < int (length (commandHistory s)) \<longrightarrow>
            command (step p s (KeyDown e)) =
              Some (commandHistory s ! (length (commandHistory s) - 1 - nat (historyIndex s + 1)))"
  proof
    assume r: "- 1 \<le> historyIndex s \<and> historyIndex s + 1 < int (length (commandHistory s))"
    then have "nat (int (length (commandHistory s)) - 1 - (historyIndex s + 1))
        = length (commandHistory s) - 1 - nat (historyIndex s + 1)"
      by linarith
    with r assms show "command (step p s (KeyDown e)) =
        Some (commandHistory s ! (length (commandHistory s) - 1 - nat (historyIndex s + 1)))"
      by (simp add: step_up js_index_def)
  qed
  have noop: "historyIndex s + 1 = int (length (commandHistory s)) \<longrightarrow> step p s (KeyDown e) = s"
    using assms by (simp add: step_up)
  have ex1: "command (run enabled initial
            [Change [0x61], FormSubmit, Change [0x62], FormSubmit, Change [0x63], FormSubmit,
             pressUp]) = Some [0x63]"
    by (simp add: handler_defs example_defs)
  have ex2: "command (run enabled initial
            [Change [0x61], FormSubmit, Change [0x62], FormSubmit, Change [0x63], FormSubmit,
             pressUp, pressUp]) = Some [0x62]"
    by (simp add: handler_defs example_defs)
  have ex3: "command (run enabled initial
            [Change [0x61], FormSubmit, Change [0x62], FormSubmit, Change [0x63], FormSubmit,
             pressUp, pressUp, pressUp]) = Some [0x61]"
    by (simp add: handler_defs example_defs)
  have ex4: "command (run enabled initial
            [Change [0x61], FormSubmit, Change [0x62], FormSubmit, Change [0x63], FormSubmit,
             pressUp, pressUp, pressUp, pressUp]) = Some [0x61]"
    by (simp add: handler_defs example_defs)
  from nav inr noop ex1 ex2 ex3 ex4 show ?thesis by blast
qed

theorem up_key_witness:
  "key \<lparr>key = ArrowUp, ctrlKey = False, metaKey = False\<rparr> = ArrowUp
   \<and> commandHistory \<lparr>command = Some [], commandHistory = [[0x61], [0x62]], historyIndex = 0\<rparr> \<noteq> []
   \<and> step enabled \<lparr>command = Some [], commandHistory = [[0x61], [0x62]], historyIndex = 0\<rparr>
        (KeyDown \<lparr>key = ArrowUp, ctrlKey = False, metaKey = False\<rparr>)
      = \<lparr>command = Some [0x61], commandHistory = [[0x61], [0x62]], historyIndex = 1\<rparr>
   \<and> step enabled \<lparr>command = Some [0x61], commandHistory = [[0x61], [0x62]], historyIndex = 1\<rparr>
        (KeyDown \<lparr>key = ArrowUp, ctrlKey = False, metaKey = False\<rparr>)
      = \<lparr>command = Some [0x61], commandHistory = [[0x61], [0x62]], historyIndex = 1\<rparr>"
proof -
  let ?e = "\<lparr>key = ArrowUp, ctrlKey = False, metaKey = False\<rparr>"
  let ?s = "\<lparr>command = Some [], commandHistory = [[0x61], [0x62]], historyIndex = 0\<rparr>"
  let ?t = "\<lparr>command = Some [0x61], commandHistory = [[0x61], [0x62]], historyIndex = 1\<rparr>"
  have k: "key ?e = ArrowUp" by simp
  have hs: "commandHistory ?s \<noteq> []" and ht: "commandHistory ?t \<noteq> []" by simp_all
  from up_key [OF k hs, of enabled] have
    "historyIndex (step enabled ?s (KeyDown ?e)) = 1"
    "command (step enabled ?s (KeyDown ?e)) = Some [0x61]"
    "commandHistory (step enabled ?s (KeyDown ?e)) = [[0x61], [0x62]]"
    by (simp_all add: js_index_def)
  then have 1: "step enabled ?s (KeyDown ?e) = ?t"
    by (cases "step enabled ?s (KeyDown ?e)") simp
  from up_key [OF k ht, of enabled] have 2: "step enabled ?t (KeyDown ?e) = ?t"
    by simp
  from k hs 1 2 show ?thesis by simp
qed

text \<open>
  C3. In every state, a press of the Down key with cursor \<open>c > 0\<close> sets the cursor to
  \<open>c - 1\<close> and the draft to \<^verbatim>\<open>History[length(History) - 1 - (c - 1)]\<close> (the read is
  in range as soon as \<open>c \<le> length(History)\<close>); with cursor \<open>0\<close> it sets the cursor to
  \<open>-1\<close> and the draft to the empty string; with cursor \<open>-1\<close> it changes nothing.
\<close>

theorem down_key:
  assumes "key e = ArrowDown"
  shows "(0 < historyIndex s \<longrightarrow>
            historyIndex (step p s (KeyDown e)) = historyIndex s - 1
          \<and> command (step p s (KeyDown e)) =
              js_index (commandHistory s)
                (int (length (commandHistory s)) - 1 - (historyIndex s - 1))
          \<and> commandHistory (step p s (KeyDown e)) = commandHistory s)
       \<and> (0 < historyIndex s \<and> historyIndex s \<le> int (length (commandHistory s)) \<longrightarrow>
            command (step p s (KeyDown e)) =
              Some (commandHistory s ! (length (commandHistory s) - 1 - nat (historyIndex s - 1))))
       \<and> (historyIndex s = 0 \<longrightarrow>
            historyIndex (step p s (KeyDown e)) = - 1
          \<and> command (step p s (KeyDown e)) = Some []
          \<and> commandHistory (step p s (KeyDown e)) = commandHistory s)
       \<and> (historyIndex s = - 1 \<longrightarrow> step p s (KeyDown e) = s)"
proof -
  have nav: "0 < historyIndex s \<longrightarrow>
            historyIndex (step p s (KeyDown e)) = historyIndex s - 1
          \<and> command (step p s (KeyDown e)) =
              js_index (commandHistory s)
                (int (length (commandHistory s)) - 1 - (historyIndex s - 1))
          \<and> commandHistory (step p s (KeyDown e)) = commandHistory s"
    using assms by (simp add: step_down)
  have inr: "0 < historyIndex s \<and> historyIndex s \<le> int (length (commandHistory s)) \<longrightarrow>
            command (step p s (KeyDown e)) =
              Some (commandHistory s ! (length (commandHistory s) - 1 - nat (historyIndex s - 1)))"
  proof
    assume r: "0 < historyIndex s \<and> historyIndex s \<le> int (length (commandHistory s))"
    then have "nat (int (length (commandHistory s)) - 1 - (historyIndex s - 1))
        = length (commandHistory s) - 1 - nat (historyIndex s - 1)"
      by linarith
    with r assms show "command (step p s (KeyDown e)) =
        Some (commandHistory s ! (length (commandHistory s) - 1 - nat (historyIndex s - 1)))"
      by (simp add: step_down js_index_def)
  qed
  have live: "historyIndex s = 0 \<longrightarrow>
            historyIndex (step p s (KeyDown e)) = - 1
          \<and> command (step p s (KeyDown e)) = Some []
          \<and> commandHistory (step p s (KeyDown e)) = commandHistory s"
    using assms by (simp add: step_down)
  have noop: "historyIndex s = - 1 \<longrightarrow> step p s (KeyDown e) = s"
    using assms by (simp add: step_down)
  from nav inr live noop show ?thesis by blast
qed

theorem down_key_witness:
  "key \<lparr>key = ArrowDown, ctrlKey = False, metaKey = False\<rparr> = ArrowDown
   \<and> step enabled \<lparr>command = Some [0x61], commandHistory = [[0x61], [0x62], [0x63]], historyIndex = 2\<rparr>
        (KeyDown \<lparr>key = ArrowDown, ctrlKey = False, metaKey = False\<rparr>)
      = \<lparr>command = Some [0x62], commandHistory = [[0x61], [0x62], [0x63]], historyIndex = 1\<rparr>
   \<and> step enabled \<lparr>command = Some [0x63], commandHistory = [[0x61], [0x62], [0x63]], historyIndex = 0\<rparr>
        (KeyDown \<lparr>key = ArrowDown, ctrlKey = False, metaKey = False\<rparr>)
      = \<lparr>command = Some [], commandHistory = [[0x61], [0x62], [0x63]], historyIndex = - 1\<rparr>
   \<and> step enabled \<lparr>command = Some [0x78], commandHistory = [[0x61], [0x62], [0x63]], historyIndex = - 1\<rparr>
        (KeyDown \<lparr>key = ArrowDown, ctrlKey = False, metaKey = False\<rparr>)
      = \<lparr>command = Some [0x78], commandHistory = [[0x61], [0x62], [0x63]], historyIndex = - 1\<rparr>"
proof -
  let ?e = "\<lparr>key = ArrowDown, ctrlKey = False, metaKey = False\<rparr>"
  let ?h = "[[0x61], [0x62], [0x63]] :: jsstring list"
  let ?s2 = "\<lparr>command = Some [0x61], commandHistory = ?h, historyIndex = 2\<rparr>"
  let ?s0 = "\<lparr>command = Some [0x63], commandHistory = ?h, historyIndex = 0\<rparr>"
  let ?sl = "\<lparr>command = Some [0x78], commandHistory = ?h, historyIndex = - 1\<rparr>"
  have k: "key ?e = ArrowDown" by simp
  from down_key [OF k, of ?s2 enabled] have
    "historyIndex (step enabled ?s2 (KeyDown ?e)) = 1"
    "command (step enabled ?s2 (KeyDown ?e)) = Some [0x62]"
    "commandHistory (step enabled ?s2 (KeyDown ?e)) = ?h"
    by (simp_all add: js_index_def)
  then have 1: "step enabled ?s2 (KeyDown ?e)
      = \<lparr>command = Some [0x62], commandHistory = ?h, historyIndex = 1\<rparr>"
    by (cases "step enabled ?s2 (KeyDown ?e)") simp
  from down_key [OF k, of ?s0 enabled] have
    "historyIndex (step enabled ?s0 (KeyDown ?e)) = - 1"
    "command (step enabled ?s0 (KeyDown ?e)) = Some []"
    "commandHistory (step enabled ?s0 (KeyDown ?e)) = ?h"
    by simp_all
  then have 2: "step enabled ?s0 (KeyDown ?e)
      = \<lparr>command = Some [], commandHistory = ?h, historyIndex = - 1\<rparr>"
    by (cases "step enabled ?s0 (KeyDown ?e)") simp
  from down_key [OF k, of ?sl enabled] have 3: "step enabled ?sl (KeyDown ?e) = ?sl"
    by simp
  from k 1 2 3 show ?thesis by simp
qed

text \<open>
  The walk back: with \<^verbatim>\<open>"a"\<close>, \<^verbatim>\<open>"b"\<close>, \<^verbatim>\<open>"c"\<close> submitted and the cursor at the
  oldest entry, presses of Down show \<^verbatim>\<open>"b"\<close>, \<^verbatim>\<open>"c"\<close>, then the empty draft with
  the cursor at \<open>-1\<close>, and one more changes nothing.
\<close>

lemma down_walk_example:
  "run enabled \<lparr>command = Some [0x61], commandHistory = [[0x61], [0x62], [0x63]], historyIndex = 2\<rparr>
     [pressDown]
     = \<lparr>command = Some [0x62], commandHistory = [[0x61], [0x62], [0x63]], historyIndex = 1\<rparr>"
  "run enabled \<lparr>command = Some [0x61], commandHistory = [[0x61], [0x62], [0x63]], historyIndex = 2\<rparr>
     [pressDown, pressDown]
     = \<lparr>command = Some [0x63], commandHistory = [[0x61], [0x62], [0x63]], historyIndex = 0\<rparr>"
  "run enabled \<lparr>command = Some [0x61], commandHistory = [[0x61], [0x62], [0x63]], historyIndex = 2\<rparr>
     [pressDown, pressDown, pressDown]
     = \<lparr>command = Some [], commandHistory = [[0x61], [0x62], [0x63]], historyIndex = - 1\<rparr>"
  "run enabled \<lparr>command = Some [0x61], commandHistory = [[0x61], [0x62], [0x63]], historyIndex = 2\<rparr>
     [pressDown, pressDown, pressDown, pressDown]
     = \<lparr>command = Some [], commandHistory = [[0x61], [0x62], [0x63]], historyIndex = - 1\<rparr>"
  by (simp_all add: handler_defs example_defs)

subsection \<open>The cursor stays inside the history\<close>

text \<open>
  C5. In every state reached from the initial state by any sequence of events (submits,
  key presses, edits of the draft, under any props), the cursor is \<open>-1\<close> or satisfies
  \<open>0 \<le> cursor < length(History)\<close>; and every single event preserves this.
\<close>

theorem cursor_invariant:
  "cursor_ok (runs initial pes) \<and> (cursor_ok s \<longrightarrow> cursor_ok (step p s ev))"
proof
  have "cursor_ok initial" by (simp add: cursor_ok_def initial_def)
  then show "cursor_ok (runs initial pes)" by (rule cursor_ok_runs)
  show "cursor_ok s \<longrightarrow> cursor_ok (step p s ev)" by (simp add: cursor_ok_step)
qed

theorem cursor_invariant_witness:
  "cursor_ok (runs initial [(enabled, Change [0x61]), (enabled, FormSubmit), (enabled, pressUp)])
   \<and> runs initial [(enabled, Change [0x61]), (enabled, FormSubmit), (enabled, pressUp)]
       = \<lparr>command = Some [0x61], commandHistory = [[0x61]], historyIndex = 0\<rparr>
   \<and> cursor_ok \<lparr>command = Some [0x61], commandHistory = [[0x61]], historyIndex = 0\<rparr>
   \<and> cursor_ok (step enabled \<lparr>command = Some [0x61], commandHistory = [[0x61]], historyIndex = 0\<rparr> pressDown)"
proof -
  let ?s = "\<lparr>command = Some [0x61], commandHistory = [[0x61]], historyIndex = 0\<rparr>"
  have ok: "cursor_ok ?s" by (simp add: cursor_ok_def)
  have r: "runs initial [(enabled, Change [0x61]), (enabled, FormSubmit), (enabled, pressUp)] = ?s"
    by (simp add: handler_defs example_defs)
  from cursor_invariant [of "[(enabled, Change [0x61]), (enabled, FormSubmit), (enabled, pressUp)]" ?s enabled pressDown]
    ok r show ?thesis by simp
qed

subsection \<open>The disabled component\<close>

text \<open>
  C6. While \<^verbatim>\<open>disabled\<close> is set, no user interaction (a key press, a form submission,
  a click on a direction button or on the submit button, typing) calls the send-command
  callback or the send-arrow-key callback or asks for the focus, and the focus effect
  asks for none either.
\<close>

theorem disabled_inert:
  assumes "disabled p"
  shows "sentCommands (fst (interact p s i)) = []
       \<and> sentArrowKeys (fst (interact p s i)) = []
       \<and> focusRequests (fst (interact p s i)) = 0
       \<and> autoFocus p attached = []"
proof (cases i)
  case (KeyPress e)
  with assms show ?thesis by (simp add: handleKeyDown_quiet autoFocus_def)
next
  case SubmitForm
  with assms show ?thesis by (simp add: handleSubmit_def sendCommand_disabled autoFocus_def)
next
  case (ClickArrow d)
  with assms show ?thesis by (simp add: click_def arrowButton_def autoFocus_def)
next
  case ClickSubmit
  with assms show ?thesis by (simp add: click_def submitButton_def autoFocus_def)
next
  case (TypeText v)
  with assms show ?thesis by (simp add: onChange_def autoFocus_def)
qed

theorem disabled_inert_witness:
  "disabled \<lparr>disabled = True, hasSendArrowKey = True\<rparr>
   \<and> interact \<lparr>disabled = True, hasSendArrowKey = True\<rparr>
        \<lparr>command = Some [0x61], commandHistory = [], historyIndex = - 1\<rparr>
        (KeyPress \<lparr>key = Enter, ctrlKey = True, metaKey = False\<rparr>) = ([PreventDefault], None)
   \<and> sentCommands (fst (interact \<lparr>disabled = True, hasSendArrowKey = True\<rparr>
        \<lparr>command = Some [0x61], commandHistory = [], historyIndex = - 1\<rparr>
        (KeyPress \<lparr>key = Enter, ctrlKey = True, metaKey = False\<rparr>))) = []
   \<and> sentArrowKeys (fst (interact \<lparr>disabled = True, hasSendArrowKey = True\<rparr>
        \<lparr>command = Some [0x61], commandHistory = [], historyIndex = - 1\<rparr>
        (ClickArrow up))) = []
   \<and> autoFocus \<lparr>disabled = True, hasSendArrowKey = True\<rparr> True = []
   \<and> interact enabled \<lparr>command = Some [0x61], commandHistory = [], historyIndex = - 1\<rparr>
        (ClickArrow up) = ([OnSendArrowKey up], None)
   \<and> autoFocus enabled True = [Focus]"
proof -
  let ?p = "\<lparr>disabled = True, hasSendArrowKey = True\<rparr>"
  let ?s = "\<lparr>command = Some [0x61], commandHistory = [], historyIndex = - 1\<rparr>"
  have d: "disabled ?p" by simp
  have 1: "interact ?p ?s (KeyPress \<lparr>key = Enter, ctrlKey = True, metaKey = False\<rparr>)
      = ([PreventDefault], None)"
    by (simp add: handleKeyDown_def sendCommand_def)
  have 2: "interact enabled ?s (ClickArrow up) = ([OnSendArrowKey up], None)"
    by (simp add: enabled_def click_def arrowButton_def onClickArrow_def)
  have 3: "autoFocus enabled True = [Focus]"
    by (simp add: enabled_def autoFocus_def)
  from disabled_inert [OF d, of ?s "KeyPress \<lparr>key = Enter, ctrlKey = True, metaKey = False\<rparr>" True]
    disabled_inert [OF d, of ?s "ClickArrow up" True] d 1 2 3
  show ?thesis by simp
qed

text \<open>
  C9. The Up branch of the key handler does not test \<^verbatim>\<open>disabled\<close>: an ArrowUp event
  delivered while \<^verbatim>\<open>disabled\<close> is set, with a non-empty history and
  \<open>cursor + 1 < length(History)\<close>, issues the effects of the enabled case and moves the
  cursor and the draft as C2 says; no key event other than the submit chord depends on
  \<^verbatim>\<open>disabled\<close>, and \<^verbatim>\<open>sendCommand\<close> alone returns early.
\<close>

theorem up_ignores_disabled:
  assumes "key e = ArrowUp" and "disabled p" and "commandHistory s \<noteq> []"
    and "historyIndex s + 1 < int (length (commandHistory s))"
  shows "handleKeyDown p s e = handleKeyDown (p\<lparr>disabled := False\<rparr>) s e
       \<and> historyIndex (step p s (KeyDown e)) = historyIndex s + 1
       \<and> command (step p s (KeyDown e)) =
           js_index (commandHistory s)
             (int (length (commandHistory s)) - 1 - (historyIndex s + 1))
       \<and> commandHistory (step p s (KeyDown e)) = commandHistory s
       \<and> (\<not> isSubmit (KeyDown e') \<longrightarrow>
            handleKeyDown p s' e' = handleKeyDown (p\<lparr>disabled := False\<rparr>) s' e')
       \<and> sendCommand p s' = ([], None)"
proof -
  have same: "handleKeyDown p s e = handleKeyDown (p\<lparr>disabled := False\<rparr>) s e"
    using assms(1) by (simp add: handleKeyDown_def)
  have others: "\<not> isSubmit (KeyDown e') \<longrightarrow>
      handleKeyDown p s' e' = handleKeyDown (p\<lparr>disabled := False\<rparr>) s' e'"
    by (simp add: handleKeyDown_def)
  have guarded: "sendCommand p s' = ([], None)"
    using assms(2) by (simp add: sendCommand_def)
  from assms same others guarded show ?thesis by (simp add: step_up)
qed

theorem up_ignores_disabled_witness:
  "key \<lparr>key = ArrowUp, ctrlKey = False, metaKey = False\<rparr> = ArrowUp
   \<and> disabled \<lparr>disabled = True, hasSendArrowKey = True\<rparr>
   \<and> step \<lparr>disabled = True, hasSendArrowKey = True\<rparr>
        \<lparr>command = Some [], commandHistory = [[0x61], [0x62]], historyIndex = - 1\<rparr>
        (KeyDown \<lparr>key = ArrowUp, ctrlKey = False, metaKey = False\<rparr>)
     = \<lparr>command = Some [0x62], commandHistory = [[0x61], [0x62]], historyIndex = 0\<rparr>"
proof -
  let ?e = "\<lparr>key = ArrowUp, ctrlKey = False, metaKey = False\<rparr>"
  let ?p = "\<lparr>disabled = True, hasSendArrowKey = True\<rparr>"
  let ?s = "\<lparr>command = Some [], commandHistory = [[0x61], [0x62]], historyIndex = - 1\<rparr>"
  have k: "key ?e = ArrowUp" and d: "disabled ?p" and h: "commandHistory ?s \<noteq> []"
    and r: "historyIndex ?s + 1 < int (length (commandHistory ?s))"
    by simp_all
  from up_ignores_disabled [OF k d h r] have
    "historyIndex (step ?p ?s (KeyDown ?e)) = 0"
    "command (step ?p ?s (KeyDown ?e)) = Some [0x62]"
    "commandHistory (step ?p ?s (KeyDown ?e)) = [[0x61], [0x62]]"
    by (simp_all add: js_index_def)
  then have "step ?p ?s (KeyDown ?e)
      = \<lparr>command = Some [0x62], commandHistory = [[0x61], [0x62]], historyIndex = 0\<rparr>"
    by (cases "step ?p ?s (KeyDown ?e)") simp
  with k d show ?thesis by simp
qed

subsection \<open>Modifiers\<close>

text \<open>
  C7, as the code has it. The handler tests Ctrl and Meta only together with Enter; a
  press of ArrowUp or ArrowDown reaches the history navigation whatever modifiers are
  held, and issues the same effects and gives the same state as the press without them.
\<close>

theorem arrows_ignore_modifiers:
  assumes "key e = ArrowUp \<or> key e = ArrowDown"
  shows "handleKeyDown p s (e\<lparr>ctrlKey := c, metaKey := m\<rparr>) = handleKeyDown p s e
       \<and> step p s (KeyDown (e\<lparr>ctrlKey := c, metaKey := m\<rparr>)) = step p s (KeyDown e)"
  using assms by (auto simp: step_def handleKeyDown_def)

theorem arrows_ignore_modifiers_witness:
  "key \<lparr>key = ArrowDown, ctrlKey = False, metaKey = False\<rparr> = ArrowDown
   \<and> step enabled \<lparr>command = Some [0x62], commandHistory = [[0x61], [0x62]], historyIndex = 0\<rparr>
        (KeyDown \<lparr>key = ArrowDown, ctrlKey = False, metaKey = True\<rparr>)
     = \<lparr>command = Some [], commandHistory = [[0x61], [0x62]], historyIndex = - 1\<rparr>"
proof -
  let ?e = "\<lparr>key = ArrowDown, ctrlKey = False, metaKey = False\<rparr>"
  let ?s = "\<lparr>command = Some [0x62], commandHistory = [[0x61], [0x62]], historyIndex = 0\<rparr>"
  have k: "key ?e = ArrowUp \<or> key ?e = ArrowDown" by simp
  have "step enabled ?s (KeyDown ?e)
      = \<lparr>command = Some [], commandHistory = [[0x61], [0x62]], historyIndex = - 1\<rparr>"
    by (simp add: handler_defs)
  with arrows_ignore_modifiers [OF k, where p = enabled and s = ?s and c = False and m = True]
  show ?thesis by simp
qed

text \<open>
  C7 as it is written fails: with one entry \<^verbatim>\<open>"a"\<close> in the history and the cursor
  at \<open>-1\<close>, Ctrl+ArrowUp moves the cursor to \<open>0\<close> and sets the draft to \<^verbatim>\<open>"a"\<close>.
\<close>

theorem modifier_up_counterexample:
  "ctrlKey \<lparr>key = ArrowUp, ctrlKey = True, metaKey = False\<rparr>
   \<and> step enabled \<lparr>command = Some [], commandHistory = [[0x61]], historyIndex = - 1\<rparr>
        (KeyDown \<lparr>key = ArrowUp, ctrlKey = True, metaKey = False\<rparr>)
     = \<lparr>command = Some [0x61], commandHistory = [[0x61]], historyIndex = 0\<rparr>"
  by (simp add: handler_defs js_index_def)

subsection \<open>Order of the effects of a submit\<close>




subsection \<open>Editing while browsing\<close>

text \<open>
  C10, as the code has it. An edit of the text field while the cursor is \<open>\<ge> 0\<close> sets
  the draft and leaves the cursor and the history alone. A press of Up after it
  continues from the same cursor: when \<open>cursor + 1 < length(History)\<close> it moves to
  \<open>cursor + 1\<close> and replaces the edited draft with
  \<^verbatim>\<open>History[length(History) - 1 - (cursor + 1)]\<close>; when the cursor is at the oldest
  entry already it changes nothing, and the edited draft stays.
\<close>

theorem edit_while_browsing:
  assumes "0 \<le> historyIndex s"
  shows "command (step p s (Change v)) = Some v
       \<and> historyIndex (step p s (Change v)) = historyIndex s
       \<and> commandHistory (step p s (Change v)) = commandHistory s
       \<and> (historyIndex s + 1 < int (length (commandHistory s)) \<longrightarrow>
            historyIndex (run p s [Change v, pressUp]) = historyIndex s + 1
          \<and> command (run p s [Change v, pressUp]) =
              js_index (commandHistory s)
                (int (length (commandHistory s)) - 1 - (historyIndex s + 1))
          \<and> commandHistory (run p s [Change v, pressUp]) = commandHistory s)
       \<and> (int (length (commandHistory s)) \<le> historyIndex s + 1 \<longrightarrow>
            run p s [Change v, pressUp] = step p s (Change v))"
  using assms by (simp add: run_def pressUp_def step_up step_change)

theorem edit_while_browsing_witness:
  "0 \<le> historyIndex \<lparr>command = Some [0x62], commandHistory = [[0x61], [0x62]], historyIndex = 0\<rparr>
   \<and> step enabled \<lparr>command = Some [0x62], commandHistory = [[0x61], [0x62]], historyIndex = 0\<rparr>
        (Change [0x62, 0x78])
     = \<lparr>command = Some [0x62, 0x78], commandHistory = [[0x61], [0x62]], historyIndex = 0\<rparr>
   \<and> run enabled \<lparr>command = Some [0x62], commandHistory = [[0x61], [0x62]], historyIndex = 0\<rparr>
        [Change [0x62, 0x78], pressUp]
     = \<lparr>command = Some [0x61], commandHistory = [[0x61], [0x62]], historyIndex = 1\<rparr>"
proof -
  let ?s = "\<lparr>command = Some [0x62], commandHistory = [[0x61], [0x62]], historyIndex = 0\<rparr>"
  let ?v = "[0x62, 0x78] :: jsstring"
  have a: "0 \<le> historyIndex ?s" by simp
  from edit_while_browsing [OF a, of enabled ?v] have
    "command (step enabled ?s (Change ?v)) = Some ?v"
    "historyIndex (step enabled ?s (Change ?v)) = 0"
    "commandHistory (step enabled ?s (Change ?v)) = [[0x61], [0x62]]"
    "historyIndex (run enabled ?s [Change ?v, pressUp]) = 1"
    "command (run enabled ?s [Change ?v, pressUp]) = Some [0x61]"
    "commandHistory (run enabled ?s [Change ?v, pressUp]) = [[0x61], [0x62]]"
    by (simp_all add: js_index_def)
  then have "step enabled ?s (Change ?v)
      = \<lparr>command = Some ?v, commandHistory = [[0x61], [0x62]], historyIndex = 0\<rparr>"
    "run enabled ?s [Change ?v, pressUp]
      = \<lparr>command = Some [0x61], commandHistory = [[0x61], [0x62]], historyIndex = 1\<rparr>"
    by (cases "step enabled ?s (Change ?v)"; cases "run enabled ?s [Change ?v, pressUp]"; simp)+
  with a show ?thesis by simp
qed

text \<open>
  C10 as it is written fails at the oldest entry: after \<^verbatim>\<open>"a"\<close> is submitted and Up
  pressed once, the draft is edited to \<^verbatim>\<open>"x"\<close>; a further Up leaves \<^verbatim>\<open>"x"\<close> in
  place.
\<close>

theorem edit_at_oldest_counterexample:
  "run enabled initial [Change [0x61], FormSubmit, pressUp]
     = \<lparr>command = Some [0x61], commandHistory = [[0x61]], historyIndex = 0\<rparr>
   \<and> run enabled initial [Change [0x61], FormSubmit, pressUp, Change [0x78], pressUp]
     = \<lparr>command = Some [0x78], commandHistory = [[0x61]], historyIndex = 0\<rparr>"
  by (simp add: handler_defs example_defs)

end
